theory Spec2Isabelle
  imports
    Complex_Main
    "HOL-Library.Word"
    "HOL-Library.Char_ord"
    "HOL-Library.List_Lexorder"
    "HOL-Library.Product_Lexorder"
begin

unbundle bit_operations_syntax

section \<open>xrayhttp: the response-writer wrapper (wrap.go)\<close>

text \<open>
  \<open>wrap\<close> probes the wrapped writer \<open>rw.rw\<close> with four type assertions, collects the
  answers in the bits of \<open>n\<close> (a Go \<open>uint\<close>, 64 bits wide here; only the low four bits
  are ever touched) and returns an anonymous struct that embeds \<open>responseWriter\<close>
  together with the optional interfaces that were found. The embedded interfaces of the
  returned struct are what it implements, so the model returns them as a list, in the
  order of the struct literal. The statement after the \<open>switch\<close> is a panic.
\<close>

datatype iface = responseWriter | Flusher | CloseNotifier | Hijacker | Pusher

text \<open>What the four type assertions on \<open>rw.rw\<close> answer.\<close>

record writer_caps =
  is_Flusher :: bool
  is_CloseNotifier :: bool
  is_Hijacker :: bool
  is_Pusher :: bool

datatype panic = Unreachable | NilDereference | UnexportedField

definition wrap_mask :: "writer_caps \<Rightarrow> 64 word" where
  "wrap_mask rw =
     (let n = 0;
          n = (if is_Flusher rw then n OR 0x1 else n);
          n = (if is_CloseNotifier rw then n OR 0x2 else n);
          n = (if is_Hijacker rw then n OR 0x4 else n);
          n = (if is_Pusher rw then n OR 0x8 else n)
      in n)"

definition wrap_switch :: "64 word \<Rightarrow> panic + iface list" where
  "wrap_switch n =
     (if n = 0x0 then Inr [responseWriter]
      else if n = 0x1 then Inr [responseWriter, Flusher]
      else if n = 0x2 then Inr [responseWriter, CloseNotifier]
      else if n = 0x3 then Inr [responseWriter, Flusher, CloseNotifier]
      else if n = 0x4 then Inr [responseWriter, Hijacker]
      else if n = 0x5 then Inr [responseWriter, Flusher, Hijacker]
      else if n = 0x6 then Inr [responseWriter, CloseNotifier, Hijacker]
      else if n = 0x7 then Inr [responseWriter, Flusher, CloseNotifier, Hijacker]
      else if n = 0x8 then Inr [responseWriter, Pusher]
      else if n = 0x9 then Inr [responseWriter, Flusher, Pusher]
      else if n = 0xa then Inr [responseWriter, CloseNotifier, Pusher]
      else if n = 0xb then Inr [responseWriter, Flusher, CloseNotifier, Pusher]
      else if n = 0xc then Inr [responseWriter, Hijacker, Pusher]
      else if n = 0xd then Inr [responseWriter, Flusher, Hijacker, Pusher]
      else if n = 0xe then Inr [responseWriter, CloseNotifier, Hijacker, Pusher]
      else if n = 0xf then Inr [responseWriter, Flusher, CloseNotifier, Hijacker, Pusher]
      else Inl Unreachable)"

definition wrap :: "writer_caps \<Rightarrow> panic + iface list" where
  "wrap rw = wrap_switch (wrap_mask rw)"

text \<open>A returned struct implements an interface when it embeds it.\<close>

definition implements :: "panic + iface list \<Rightarrow> iface \<Rightarrow> bool" where
  "implements v i = (case v of Inl _ \<Rightarrow> False | Inr is \<Rightarrow> i \<in> set is)"

section \<open>xrayaws and xrayaws-v2: the request handlers (client.go)\<close>

text \<open>
  Both packages keep one \<open>subsegments\<close> value per request. Every handler locks
  \<open>segs.mu\<close> for its whole body, so a handler is one atomic step on that value. The
  methods of \<open>*xray.Segment\<close> are not part of these files; a handler is modelled by the
  new \<open>subsegments\<close> value together with the calls it makes, in order, each with the
  pointer it is made on (\<open>None\<close> is \<open>nil\<close>).

  An error value is the chain that \<open>errors.Unwrap\<close> walks, outermost first; \<open>nil\<close> is the
  empty chain. A node implements \<open>interface{ StatusCode() int }\<close> when its \<open>status_code\<close>
  is \<open>Some c\<close>, and the method then returns \<open>c\<close>.
\<close>

type_synonym seg = nat
type_synonym ctx = nat

record err_node =
  message :: string
  status_code :: "int option"

type_synonym err = "err_node list"

text \<open>
  Values seen through \<open>interface{}\<close> and \<open>reflect\<close>. The entries of a map are listed in
  the order in which \<open>MapKeys\<close> returns them (Go leaves that order unspecified). A
  struct field carries its name, whether it is exported, and its value.
\<close>

datatype gvalue =
    VNil
  | VBool bool
  | VInt int
  | VString string
  | VPtr "gvalue option"
  | VSlice "gvalue list"
  | VArray "gvalue list"
  | VMap "(gvalue \<times> gvalue) list"
  | VStruct "(string \<times> bool \<times> gvalue) list"

text \<open>
  Modelled from the spec: \<open>schema.AWS\<close> and its method \<open>Set\<close>, which are not among the
  sources. The aws payload is a map from keys to values, and \<open>Set\<close> stores the value
  under the key ("the emitted aws payload contains key Foo whose value is ...").
\<close>

type_synonym AWS = "string \<rightharpoonup> gvalue"

definition AWS_Set :: "AWS \<Rightarrow> string \<Rightarrow> gvalue \<Rightarrow> AWS" where
  "AWS_Set aws key v = aws(key \<mapsto> v)"

record http_response =
  StatusCode :: int
  ContentLength :: int
  x_amz_id_2 :: string

record request =
  Error :: err
  HTTPResponse :: "http_response option"

datatype seg_call =
    AddError err
  | Close
  | SetThrottle
  | SetFault
  | SetHTTPResponse int int
  | SetAWS AWS

datatype effect = SegCall "seg option" seg_call | CancelCall nat

text \<open>
  The v2 struct. The v1 struct has the same fields without \<open>attemptCancel\<close>; the v1
  handlers below never read or write that field.
\<close>

record subsegments =
  awsCtx :: "ctx option"
  awsSeg :: "seg option"
  marshalCtx :: "ctx option"
  marshalSeg :: "seg option"
  attemptCtx :: "ctx option"
  attemptSeg :: "seg option"
  attemptCancel :: "nat option"
  unmarshalCtx :: "ctx option"
  unmarshalSeg :: "seg option"

subsection \<open>xrayaws-v2\<close>



text \<open>
  \<open>errors.As(r.Error, &v)\<close> with \<open>v\<close> of type \<open>interface{ StatusCode() int }\<close>: the first
  node of the chain that implements the interface is stored in \<open>v\<close>; the result here is
  what \<open>v.StatusCode()\<close> then returns, or \<open>None\<close> when \<open>errors.As\<close> reports false.
\<close>

fun errors_As_StatusCode :: "err \<Rightarrow> int option" where
  "errors_As_StatusCode [] = None"
| "errors_As_StatusCode (e # es) =
     (case status_code e of Some c \<Rightarrow> Some c | None \<Rightarrow> errors_As_StatusCode es)"

definition StatusTooManyRequests :: int where
  "StatusTooManyRequests = 429"

text \<open>
  \<open>afterComplete\<close> of v2. Calling \<open>segs.attemptCancel\<close> while it is \<open>nil\<close> panics. The
  three blocks that close what is still open run first, then the response, the aws
  data, the throttle test, the error and the close of the aws subsegment.
\<close>

definition afterComplete_v2 ::
  "request \<Rightarrow> AWS \<Rightarrow> subsegments \<Rightarrow> panic + (subsegments \<times> AWS \<times> effect list)" where
  "afterComplete_v2 r awsData segs =
     (if attemptCtx segs \<noteq> None \<and> attemptCancel segs = None then Inl NilDereference
      else
        let (segs1, fx1) =
              (if attemptCtx segs \<noteq> None
               then (segs\<lparr>attemptCtx := None, attemptSeg := None, attemptCancel := None\<rparr>,
                     [CancelCall (the (attemptCancel segs)), SegCall (attemptSeg segs) Close])
               else (segs, []));
            (segs2, fx2) =
              (if marshalCtx segs1 \<noteq> None
               then (segs1\<lparr>marshalCtx := None, marshalSeg := None\<rparr>,
                     [SegCall (marshalSeg segs1) Close])
               else (segs1, []));
            (segs3, fx3) =
              (if unmarshalCtx segs2 \<noteq> None
               then (segs2\<lparr>unmarshalCtx := None, unmarshalSeg := None\<rparr>,
                     [SegCall (unmarshalSeg segs2) Close])
               else (segs2, []));
            (awsData1, fx4) =
              (case HTTPResponse r of
                 None \<Rightarrow> (awsData, [])
               | Some resp \<Rightarrow>
                   (if x_amz_id_2 resp \<noteq> [] then AWS_Set awsData ''id_2'' (VString (x_amz_id_2 resp))
                    else awsData,
                    [SegCall (awsSeg segs3) (SetHTTPResponse (StatusCode resp) (ContentLength resp))]));
            fx5 = [SegCall (awsSeg segs3) (SetAWS awsData1)];
            fx6 =
              (case errors_As_StatusCode (Error r) of
                 None \<Rightarrow> []
               | Some c \<Rightarrow>
                   if c = StatusTooManyRequests then [SegCall (awsSeg segs3) SetThrottle] else []);
            fx7 = [SegCall (awsSeg segs3) (AddError (Error r)), SegCall (awsSeg segs3) Close]
        in Inr (segs3, awsData1, fx1 @ fx2 @ fx3 @ fx4 @ fx5 @ fx6 @ fx7))"

subsection \<open>xrayaws (v1)\<close>



definition closeAll :: "subsegments \<Rightarrow> subsegments \<times> effect list" where
  "closeAll segs =
     (let (segs1, fx1) =
            (if attemptSeg segs \<noteq> None
             then (segs\<lparr>attemptCtx := None, attemptSeg := None\<rparr>, [SegCall (attemptSeg segs) Close])
             else (segs, []));
          (segs2, fx2) =
            (if marshalSeg segs1 \<noteq> None
             then (segs1\<lparr>marshalCtx := None, marshalSeg := None\<rparr>, [SegCall (marshalSeg segs1) Close])
             else (segs1, []));
          (segs3, fx3) =
            (if unmarshalSeg segs2 \<noteq> None
             then (segs2\<lparr>unmarshalCtx := None, unmarshalSeg := None\<rparr>, [SegCall (unmarshalSeg segs2) Close])
             else (segs2, []))
      in (segs3, fx1 @ fx2 @ fx3))"

text \<open>
  \<open>afterComplete\<close> of v1 asks the SDK's \<open>request.IsErrorThrottle\<close>, a function of
  aws-sdk-go and not of this repository: it is a parameter here.
\<close>

definition afterComplete_v1 ::
  "(err \<Rightarrow> bool) \<Rightarrow> request \<Rightarrow> subsegments \<Rightarrow> subsegments \<times> effect list" where
  "afterComplete_v1 IsErrorThrottle r segs =
     (let (segs1, fx1) = closeAll segs;
          fx2 = (if IsErrorThrottle (Error r) then [SegCall (awsSeg segs1) SetThrottle] else []);
          fx3 = [SegCall (awsSeg segs1) (AddError (Error r)), SegCall (awsSeg segs1) Close]
      in (segs1, fx1 @ fx2 @ fx3))"

subsection \<open>Running the two unmarshal handlers in any order\<close>







definition throttles :: "effect list \<Rightarrow> effect list" where
  "throttles fx = filter (\<lambda>e. case e of SegCall _ SetThrottle \<Rightarrow> True | _ \<Rightarrow> False) fx"

subsection \<open>Retries: a fresh unmarshal subsegment for every attempt\<close>








text \<open>
  A request in flight after \<open>beforeUnmarshalMeta\<close>: the aws subsegment and the unmarshal
  subsegment are open, nothing else is. Two requests, one failing with status 429 and
  one with status 500 wrapped in an error without a status.
\<close>

definition segs_unmarshalling :: subsegments where
  "segs_unmarshalling =
     \<lparr>awsCtx = Some 1, awsSeg = Some 1, marshalCtx = None, marshalSeg = None,
      attemptCtx = None, attemptSeg = None, attemptCancel = None,
      unmarshalCtx = Some 2, unmarshalSeg = Some 2\<rparr>"

definition req_429 :: request where
  "req_429 = \<lparr>Error = [\<lparr>message = ''slow down'', status_code = Some 429\<rparr>], HTTPResponse = None\<rparr>"

definition req_500 :: request where
  "req_500 =
     \<lparr>Error = [\<lparr>message = ''send failed'', status_code = None\<rparr>,
               \<lparr>message = ''internal'', status_code = Some 500\<rparr>],
      HTTPResponse = Some \<lparr>StatusCode = 500, ContentLength = 0, x_amz_id_2 = []\<rparr>\<rparr>"


subsection \<open>The whitelist descriptors\<close>

text \<open>
  \<open>whitelist.Descriptor\<close> is declared outside these files; the fields used here are the
  five below.
\<close>

record Descriptor =
  RenameTo :: string
  Map :: bool
  GetKeys :: bool
  List :: bool
  GetCount :: bool

text \<open>
  \<open>getValue\<close>: a pointer is followed once (\<open>Elem\<close> of a nil pointer is the invalid
  value, whose kind is not \<open>Struct\<close>); the field loop starts at index 1;
  \<open>Interface()\<close> on a field that is not exported panics.
\<close>

fun find_field :: "(string \<times> bool \<times> gvalue) list \<Rightarrow> string \<Rightarrow> panic + gvalue" where
  "find_field [] key = Inr VNil"
| "find_field ((name, exported, v) # fs) key =
     (if name = key then (if exported then Inr v else Inl UnexportedField)
      else find_field fs key)"

definition getValue :: "gvalue \<Rightarrow> string \<Rightarrow> panic + gvalue" where
  "getValue v key =
     (let v1 = (case v of VPtr p \<Rightarrow> (case p of None \<Rightarrow> VNil | Some x \<Rightarrow> x) | _ \<Rightarrow> v)
      in case v1 of
           VStruct fs \<Rightarrow> find_field (drop 1 fs) key
         | _ \<Rightarrow> Inr VNil)"

definition insertDescriptor ::
  "Descriptor option \<Rightarrow> AWS \<Rightarrow> gvalue \<Rightarrow> string \<Rightarrow> panic + AWS" where
  "insertDescriptor desc aws v key =
     (case desc of
        None \<Rightarrow> Inl NilDereference
      | Some d \<Rightarrow>
          let renameTo = (if RenameTo d = [] then key else RenameTo d)
          in case getValue v key of
               Inl p \<Rightarrow> Inl p
             | Inr val \<Rightarrow>
                 if Map d then
                   (if \<not> GetKeys d then Inr aws
                    else case val of
                           VMap entries \<Rightarrow> Inr (AWS_Set aws renameTo (VSlice (map fst entries)))
                         | _ \<Rightarrow> Inr aws)
                 else if List d then
                   (if \<not> GetCount d then Inr aws
                    else case val of
                           VSlice xs \<Rightarrow> Inr (AWS_Set aws renameTo (VInt (int (length xs))))
                         | VArray xs \<Rightarrow> Inr (AWS_Set aws renameTo (VInt (int (length xs))))
                         | _ \<Rightarrow> Inr aws)
                 else Inr (AWS_Set aws renameTo val))"

definition struct_Map :: "(gvalue \<times> gvalue) list \<Rightarrow> gvalue" where
  \<comment> \<open>the test's \<open>Map{Foo: ...}\<close>: a blank first field, then the map-typed field \<open>Foo\<close>\<close>
  "struct_Map entries = VStruct [(''_'', False, VStruct []), (''Foo'', True, VMap entries)]"

definition desc_keys :: Descriptor where
  \<comment> \<open>\<open>&whitelist.Descriptor{Map: true, GetKeys: true}\<close>\<close>
  "desc_keys = \<lparr>RenameTo = [], Map = True, GetKeys = True, List = False, GetCount = False\<rparr>"

text \<open>
  The map of the test, in one of its two iteration orders, and a struct with another
  exported field before \<open>Foo\<close>.
\<close>

definition entries_hoge_foo :: "(gvalue \<times> gvalue) list" where
  "entries_hoge_foo = [(VString ''hoge'', VString ''fuga''), (VString ''foo'', VString ''bar'')]"

definition struct_Bar_Foo :: "(gvalue \<times> gvalue) list \<Rightarrow> gvalue" where
  "struct_Bar_Foo entries =
     VStruct [(''_'', False, VStruct []), (''Bar'', True, VString ''baz''), (''Foo'', True, VMap entries)]"

section \<open>xray/sampling: the centralized strategy (centralized_strategy.go)\<close>

text \<open>
  Quotas are shared objects: a rule and the manifest's \<open>Quotas\<close> map point to the same
  \<open>*centralizedQuota\<close>, and \<open>refreshQuota\<close> updates it in place. They live in a store; a
  pointer is an address, and a new object takes the next free address. A time is a
  number of nanoseconds counted from Go's zero \<open>time.Time\<close>, so the zero time is \<open>0\<close>
  and \<open>After\<close> is \<open>>\<close>. A \<open>float64\<close> is only ever copied here, never computed with.

  The declarations of \<open>centralizedQuota\<close>, \<open>centralizedRule\<close> and \<open>centralizedManifest\<close>
  are outside this file; their fields are the ones this file and its tests use. The
  rule's pointer field is called \<open>quota\<close> in the source and \<open>quotaP\<close> here.
\<close>

type_synonym addr = nat
type_synonym time = int

record centralizedQuota =
  quota :: int
  ttl :: time
  fixedRate :: real
  requests :: int
  borrowed :: int
  sampled :: int

record centralizedRule =
  quotaP :: addr
  ruleName :: string
  priority :: int
  host :: string
  urlPath :: string
  httpMethod :: string
  serviceName :: string
  serviceType :: string

record centralizedManifest =
  Rules :: "centralizedRule list"
  Quotas :: "string \<rightharpoonup> addr"
  RefreshedAt :: time

record quota_store =
  cells :: "addr \<Rightarrow> centralizedQuota"
  next_addr :: addr

definition new_quota :: "quota_store \<Rightarrow> centralizedQuota \<Rightarrow> addr \<times> quota_store" where
  "new_quota h q = (next_addr h, h\<lparr>cells := (cells h)(next_addr h := q), next_addr := Suc (next_addr h)\<rparr>)"

text \<open>The strategy, with the store of the quotas it can reach.\<close>

record CentralizedStrategy =
  manifest :: "centralizedManifest option"
  clientID :: string
  heap :: quota_store

definition manifestTTL :: int where
  "manifestTTL = 3600"

text \<open>The SDK's shapes; every field is a pointer there, \<open>None\<close> is \<open>nil\<close>.\<close>

record samplingRule =
  RuleName :: "string option"
  FixedRate :: "real option"
  Priority :: "int option"
  Host :: "string option"
  URLPath :: "string option"
  HTTPMethod :: "string option"
  ServiceName :: "string option"
  ServiceType :: "string option"

record samplingRuleRecord =
  SamplingRule :: "samplingRule option"

record samplingStatisticsDocument =
  stat_ClientID :: string
  stat_RuleName :: string
  RequestCount :: int
  SampledCount :: int
  BorrowCount :: int
  Timestamp :: time

record samplingTargetDocument =
  target_RuleName :: "string option"
  target_FixedRate :: "real option"
  ReservoirQuota :: "int option"
  ReservoirQuotaTTL :: "time option"
  Interval :: "int option"

record getSamplingTargetsOutput =
  LastRuleModification :: "time option"
  SamplingTargetDocuments :: "samplingTargetDocument option list"

definition StringValue :: "string option \<Rightarrow> string" where
  "StringValue p = (case p of None \<Rightarrow> [] | Some v \<Rightarrow> v)"

definition Int64Value :: "int option \<Rightarrow> int" where
  "Int64Value p = (case p of None \<Rightarrow> 0 | Some v \<Rightarrow> v)"

definition Float64Value :: "real option \<Rightarrow> real" where
  "Float64Value p = (case p of None \<Rightarrow> 0 | Some v \<Rightarrow> v)"

definition TimeValue :: "time option \<Rightarrow> time" where
  "TimeValue p = (case p of None \<Rightarrow> 0 | Some v \<Rightarrow> v)"

subsection \<open>ShouldTrace\<close>

text \<open>
  \<open>ShouldTrace\<close> hands the decision either to \<open>Sample\<close> of the first rule that matches
  or to the fallback strategy; the result here says to which. \<open>centralizedRule.Match\<close>
  is declared outside this file and is a parameter. The function reads no clock and no
  field of the manifest other than \<open>Rules\<close>. (\<open>startOnce.Do\<close> only starts the pollers.)
\<close>

datatype 'req delegated = RuleSample centralizedRule | FallbackShouldTrace 'req

fun ShouldTrace_rules ::
  "(centralizedRule \<Rightarrow> 'req \<Rightarrow> bool) \<Rightarrow> 'req \<Rightarrow> centralizedRule list \<Rightarrow> 'req delegated" where
  "ShouldTrace_rules Match req [] = FallbackShouldTrace req"
| "ShouldTrace_rules Match req (r # rs) =
     (if Match r req then RuleSample r else ShouldTrace_rules Match req rs)"

definition ShouldTrace ::
  "(centralizedRule \<Rightarrow> 'req \<Rightarrow> bool) \<Rightarrow> 'req \<Rightarrow> CentralizedStrategy \<Rightarrow> 'req delegated" where
  "ShouldTrace Match req s =
     (case manifest s of
        None \<Rightarrow> FallbackShouldTrace req
      | Some m \<Rightarrow> ShouldTrace_rules Match req (Rules m))"

subsection \<open>refreshRule\<close>

text \<open>
  The callback given to \<open>GetSamplingRulesPagesWithContext\<close>, record by record. A \<open>nil\<close>
  record or a record whose \<open>SamplingRule\<close> is \<open>nil\<close> is dereferenced and panics; what was
  built up to then is returned with the panic.
\<close>

type_synonym rule_acc = "centralizedRule list \<times> (string \<rightharpoonup> addr) \<times> quota_store"

definition zero_quota :: centralizedQuota where
  "zero_quota = \<lparr>quota = 0, ttl = 0, fixedRate = 0, requests = 0, borrowed = 0, sampled = 0\<rparr>"

fun refresh_records ::
  "centralizedManifest \<Rightarrow> samplingRuleRecord option list \<Rightarrow> rule_acc \<Rightarrow> panic option \<times> rule_acc" where
  "refresh_records m [] acc = (None, acc)"
| "refresh_records m (rec # recs) (rules, quotas, h) =
     (case rec of
        None \<Rightarrow> (Some NilDereference, (rules, quotas, h))
      | Some record \<Rightarrow>
          (case SamplingRule record of
             None \<Rightarrow> (Some NilDereference, (rules, quotas, h))
           | Some r \<Rightarrow>
               let name = StringValue (RuleName r);
                   (q, h1) = (case Quotas m name of
                                Some q \<Rightarrow> (q, h)
                              | None \<Rightarrow> new_quota h (zero_quota\<lparr>fixedRate := Float64Value (FixedRate r)\<rparr>));
                   rule = \<lparr>quotaP = q,
                           ruleName = name,
                           priority = Int64Value (Priority r),
                           host = StringValue (Host r),
                           urlPath = StringValue (URLPath r),
                           httpMethod = StringValue (HTTPMethod r),
                           serviceName = StringValue (ServiceName r),
                           serviceType = StringValue (ServiceType r)\<rparr>
               in refresh_records m recs (rules @ [rule], quotas(name \<mapsto> q), h1)))"

text \<open>The pages the SDK hands to the callback, in order; the callback always asks for more.\<close>

fun refresh_pages ::
  "centralizedManifest \<Rightarrow> samplingRuleRecord option list list \<Rightarrow> rule_acc \<Rightarrow> panic option \<times> rule_acc" where
  "refresh_pages m [] acc = (None, acc)"
| "refresh_pages m (page # pages) acc =
     (case refresh_records m page acc of
        (Some p, acc1) \<Rightarrow> (Some p, acc1)
      | (None, acc1) \<Rightarrow> refresh_pages m pages acc1)"

text \<open>
  Modelled from the spec: \<open>centralizedRuleSlice.Less\<close>, which is declared outside this
  file. The manifest's rules are "sorted by (priority ascending, name ascending)";
  \<open>sort.Stable\<close> with that order is the stable sort on the key below.
\<close>

definition rule_key :: "centralizedRule \<Rightarrow> int \<times> string" where
  "rule_key r = (priority r, ruleName r)"

datatype outcome = Completed | Failed | Panicked

text \<open>
  \<open>refreshRule\<close>: \<open>pages\<close> and \<open>err\<close> are what the API call produces (the pages it passes
  to the callback, then its return value, \<open>[]\<close> for \<open>nil\<close>), \<open>now\<close> is \<open>time.Now()\<close> at the
  moment the manifest is built. A panic is recovered and logged by the deferred
  function; \<open>refreshRule\<close> then returns without having called \<open>setManifest\<close>.
\<close>

definition refreshRule ::
  "samplingRuleRecord option list list \<Rightarrow> err \<Rightarrow> time \<Rightarrow> CentralizedStrategy \<Rightarrow>
   CentralizedStrategy \<times> outcome" where
  "refreshRule pages err now s =
     (case manifest s of
        None \<Rightarrow> (s, Panicked)
      | Some m \<Rightarrow>
          (case refresh_pages m pages ([], Map.empty, heap s) of
             (Some p, (rules, quotas, h)) \<Rightarrow> (s\<lparr>heap := h\<rparr>, Panicked)
           | (None, (rules, quotas, h)) \<Rightarrow>
               if err \<noteq> [] then (s\<lparr>heap := h\<rparr>, Failed)
               else (s\<lparr>heap := h,
                        manifest := Some \<lparr>Rules = sort_key rule_key rules,
                                          Quotas = quotas,
                                          RefreshedAt = now\<rparr>\<rparr>, Completed)))"

text \<open>
  What the callback builds from one record: a rule of the record's name whose quota is
  the one the previous manifest holds under that name, or else lies at an address
  taken between the two stores and holds a zero quota with the record's \<open>FixedRate\<close>.
\<close>

definition built_from ::
  "centralizedManifest \<Rightarrow> quota_store \<Rightarrow> quota_store \<Rightarrow> samplingRuleRecord option \<Rightarrow> centralizedRule \<Rightarrow> bool" where
  "built_from m h h' x r =
     (case x of
        None \<Rightarrow> False
      | Some rcd \<Rightarrow>
          (case SamplingRule rcd of
             None \<Rightarrow> False
           | Some sr \<Rightarrow>
               ruleName r = StringValue (RuleName sr) \<and>
               (case Quotas m (ruleName r) of
                  Some a \<Rightarrow> quotaP r = a
                | None \<Rightarrow> next_addr h \<le> quotaP r \<and> quotaP r < next_addr h' \<and>
                    cells h' (quotaP r) = zero_quota\<lparr>fixedRate := Float64Value (FixedRate sr)\<rparr>)))"

text \<open>
  The strategy as \<open>NewCentralizedStrategy\<close> returns it (an empty manifest, no quota
  allocated), the two rules of \<open>TestCentralizedStrategy_refreshRule\<close>, the strategy after
  the first of them has been fetched at time 1, and the manifest it then holds.
\<close>

definition strategy_new :: CentralizedStrategy where
  "strategy_new =
     \<lparr>manifest = Some \<lparr>Rules = [], Quotas = Map.empty, RefreshedAt = 0\<rparr>,
      clientID = ''0123456789abcdef01234567'',
      heap = \<lparr>cells = (\<lambda>a. zero_quota), next_addr = 0\<rparr>\<rparr>"

definition rule_Test :: samplingRule where
  "rule_Test =
     \<lparr>RuleName = Some ''Test'', FixedRate = Some (1 / 2), Priority = None,
      Host = Some ''example.com'', URLPath = None, HTTPMethod = Some ''GET'',
      ServiceName = Some ''FooBar'', ServiceType = Some ''AWS::EC2::Instance''\<rparr>"

definition rule_Test_wild :: samplingRule where
  "rule_Test_wild =
     \<lparr>RuleName = Some ''Test'', FixedRate = Some 1, Priority = None,
      Host = Some ''*'', URLPath = None, HTTPMethod = Some ''*'',
      ServiceName = Some ''*'', ServiceType = Some ''*''\<rparr>"

definition strategy_Test :: CentralizedStrategy where
  "strategy_Test = fst (refreshRule [[Some \<lparr>SamplingRule = Some rule_Test\<rparr>]] [] 1 strategy_new)"

definition manifest_Test :: centralizedManifest where
  "manifest_Test =
     \<lparr>Rules = [\<lparr>quotaP = 0, ruleName = ''Test'', priority = 0, host = ''example.com'',
                urlPath = [], httpMethod = ''GET'', serviceName = ''FooBar'',
                serviceType = ''AWS::EC2::Instance''\<rparr>],
      Quotas = [''Test'' \<mapsto> 0], RefreshedAt = 1\<rparr>"

definition err_timeout :: err where
  "err_timeout = [\<lparr>message = ''RequestError: send request failed'', status_code = None\<rparr>]"

text \<open>A \<open>Match\<close> that accepts every request, as the default rule's does.\<close>

definition always_Match :: "centralizedRule \<Rightarrow> unit \<Rightarrow> bool" where
  "always_Match r req = True"

subsection \<open>refreshQuota\<close>

text \<open>
  \<open>centralizedQuota.Stats\<close> and \<open>centralizedQuota.Update\<close> are declared outside this file
  and are parameters: \<open>Stats\<close> returns the counters (requests, sampled, borrowed) and
  the quota as it leaves it, \<open>Update\<close> the quota after taking a target document.
\<close>

type_synonym stats_fn = "centralizedQuota \<Rightarrow> (int \<times> int \<times> int) \<times> centralizedQuota"
type_synonym update_fn = "centralizedQuota \<Rightarrow> samplingTargetDocument \<Rightarrow> centralizedQuota"

fun collect_stats ::
  "stats_fn \<Rightarrow> string \<Rightarrow> time \<Rightarrow> centralizedRule list \<Rightarrow> quota_store \<Rightarrow>
   samplingStatisticsDocument list \<times> quota_store" where
  "collect_stats Stats cid now [] h = ([], h)"
| "collect_stats Stats cid now (r # rs) h =
     (let ((req, smp, bor), q1) = Stats (cells h (quotaP r));
          h1 = h\<lparr>cells := (cells h)(quotaP r := q1)\<rparr>;
          doc = \<lparr>stat_ClientID = cid, stat_RuleName = ruleName r, RequestCount = req,
                 SampledCount = smp, BorrowCount = bor, Timestamp = now\<rparr>;
          (docs, h2) = collect_stats Stats cid now rs h1
      in (doc # docs, h2))"

text \<open>The loop over \<open>resp.SamplingTargetDocuments\<close>; a \<open>nil\<close> document panics.\<close>

fun apply_targets ::
  "update_fn \<Rightarrow> centralizedManifest \<Rightarrow> samplingTargetDocument option list \<Rightarrow>
   quota_store \<Rightarrow> bool \<Rightarrow> panic option \<times> quota_store \<times> bool" where
  "apply_targets Update m [] h needRefresh = (None, h, needRefresh)"
| "apply_targets Update m (d # ds) h needRefresh =
     (case d of
        None \<Rightarrow> (Some NilDereference, h, needRefresh)
      | Some doc \<Rightarrow>
          (case Quotas m (StringValue (target_RuleName doc)) of
             Some q \<Rightarrow>
               apply_targets Update m ds (h\<lparr>cells := (cells h)(q := Update (cells h q) doc)\<rparr>) needRefresh
           | None \<Rightarrow> apply_targets Update m ds h True))"

definition maxTargets :: nat where
  "maxTargets = 25"

text \<open>
  The batching loop. \<open>api i batch\<close> is what the \<open>i\<close>-th call of
  \<open>GetSamplingTargetsWithContext\<close> returns for that batch: \<open>Inl\<close> an error, or \<open>Inr\<close> the
  response pointer. Every batch submitted is appended to \<open>calls\<close>.
\<close>

type_synonym targets_api =
  "nat \<Rightarrow> samplingStatisticsDocument list \<Rightarrow> err + getSamplingTargetsOutput option"

function targets_loop ::
  "targets_api \<Rightarrow> update_fn \<Rightarrow> centralizedManifest \<Rightarrow> nat \<Rightarrow> samplingStatisticsDocument list \<Rightarrow>
   quota_store \<Rightarrow> bool \<Rightarrow> samplingStatisticsDocument list list \<Rightarrow>
   outcome \<times> quota_store \<times> bool \<times> samplingStatisticsDocument list list" where
  "targets_loop api Update m i stats h needRefresh calls =
     (if \<not> length stats > 0 then (Completed, h, needRefresh, calls)
      else
        let l = (if length stats > maxTargets then maxTargets else length stats);
            batch = take l stats;
            rest = drop l stats
        in case api i batch of
             Inl e \<Rightarrow> targets_loop api Update m (Suc i) rest h needRefresh (calls @ [batch])
           | Inr None \<Rightarrow> (Panicked, h, needRefresh, calls @ [batch])
           | Inr (Some resp) \<Rightarrow>
               (case apply_targets Update m (SamplingTargetDocuments resp) h needRefresh of
                  (Some p, h1, need1) \<Rightarrow> (Panicked, h1, need1, calls @ [batch])
                | (None, h1, need1) \<Rightarrow>
                    targets_loop api Update m (Suc i) rest h1
                      (need1 \<or> TimeValue (LastRuleModification resp) > RefreshedAt m)
                      (calls @ [batch])))"
  by pat_completeness auto
termination
  by (relation "measure (\<lambda>(api, Update, m, i, stats, h, needRefresh, calls). length stats)")
     (auto simp: maxTargets_def)

record refreshQuota_result =
  finished :: outcome
  submitted :: "samplingStatisticsDocument list list"
  refresh_scheduled :: bool

text \<open>
  \<open>refreshQuota\<close>. \<open>go s.refreshRule()\<close> is reached only when the loop has run to its
  end and \<open>needRefresh\<close> is set; a recovered panic returns before it.
\<close>

definition refreshQuota ::
  "targets_api \<Rightarrow> stats_fn \<Rightarrow> update_fn \<Rightarrow> time \<Rightarrow> CentralizedStrategy \<Rightarrow>
   CentralizedStrategy \<times> refreshQuota_result" where
  "refreshQuota api Stats Update now s =
     (case manifest s of
        None \<Rightarrow> (s, \<lparr>finished = Panicked, submitted = [], refresh_scheduled = False\<rparr>)
      | Some m \<Rightarrow>
          let (stats, h0) = collect_stats Stats (clientID s) now (Rules m) (heap s);
              (out, h, needRefresh, calls) = targets_loop api Update m 0 stats h0 False []
          in (s\<lparr>heap := h\<rparr>,
              \<lparr>finished = out, submitted = calls,
               refresh_scheduled = (out = Completed \<and> needRefresh)\<rparr>))"

subsection \<open>newXRaySvc\<close>

text \<open>
  \<open>session.NewSession\<close> and \<open>xray.New\<close> belong to the SDK and are parameters. A client
  carries the configuration it was built with and its \<open>Sign\<close> handler list; a handler
  is a function on requests, \<open>Clear\<close> empties the list, \<open>PushBack\<close> appends, and running the
  list applies the handlers in order.
\<close>

datatype credentials = NewStaticCredentials string string string

record aws_Config =
  Region :: "string option"
  Credentials :: "credentials option"
  EndpointResolver :: "(string \<Rightarrow> string \<Rightarrow> string) option"

record 'r xray_client =
  Handlers_Sign :: "('r \<Rightarrow> 'r) list"

definition HandlerList_Clear :: "('r \<Rightarrow> 'r) list \<Rightarrow> ('r \<Rightarrow> 'r) list" where
  "HandlerList_Clear l = []"

definition HandlerList_PushBack :: "('r \<Rightarrow> 'r) list \<Rightarrow> ('r \<Rightarrow> 'r) \<Rightarrow> ('r \<Rightarrow> 'r) list" where
  "HandlerList_PushBack l f = l @ [f]"

fun HandlerList_Run :: "('r \<Rightarrow> 'r) list \<Rightarrow> 'r \<Rightarrow> 'r" where
  "HandlerList_Run [] r = r"
| "HandlerList_Run (f # fs) r = HandlerList_Run fs (f r)"

definition session_config :: "string \<Rightarrow> aws_Config" where
  \<comment> \<open>the \<open>&aws.Config{...}\<close> literal of \<open>newXRaySvc\<close>\<close>
  "session_config addr =
     (let url = ''http://'' @ addr;
          f = (\<lambda>service region. url)
      in \<lparr>Region = Some ''us-west-1'',
          Credentials = Some (NewStaticCredentials [] [] []),
          EndpointResolver = Some f\<rparr>)"

definition newXRaySvc ::
  "(aws_Config \<Rightarrow> err + 'sess) \<Rightarrow> ('sess \<Rightarrow> 'r xray_client) \<Rightarrow> string \<Rightarrow> err + 'r xray_client" where
  "newXRaySvc NewSession New addr =
     (case NewSession (session_config addr) of
        Inl e \<Rightarrow> Inl e
      | Inr sess \<Rightarrow>
          let x = New sess;
              x = x\<lparr>Handlers_Sign := HandlerList_Clear (Handlers_Sign x)\<rparr>;
              x = x\<lparr>Handlers_Sign := HandlerList_PushBack (Handlers_Sign x) (\<lambda>r. r)\<rparr>
          in Inr x)"

text \<open>
  An SDK whose session is its configuration and whose client comes with a signing
  handler installed.
\<close>

definition NewSession_ok :: "aws_Config \<Rightarrow> err + aws_Config" where
  "NewSession_ok cfg = Inr cfg"

definition New_signing :: "aws_Config \<Rightarrow> string xray_client" where
  "New_signing sess = \<lparr>Handlers_Sign = [\<lambda>r. r @ '' signed'']\<rparr>"

section \<open>Properties\<close>

lemma wrap_mask_cases:
  "wrap_mask rw =
     (if is_Flusher rw then 1 else 0) + (if is_CloseNotifier rw then 2 else 0)
     + (if is_Hijacker rw then 4 else 0) + (if is_Pusher rw then 8 else 0)"
  by (simp add: wrap_mask_def Let_def)

text \<open>
  C10. For every wrapped writer, \<open>wrap\<close> returns a struct (it does not reach the final
  panic), the capability mask is at most \<open>0xf\<close>, and the struct implements each of
  Flusher, CloseNotifier, Hijacker and Pusher exactly when the wrapped writer does.
\<close>

theorem wrap_preserves_capabilities:
  "wrap rw \<noteq> Inl Unreachable
   \<and> (\<exists>is. wrap rw = Inr is)
   \<and> unat (wrap_mask rw) \<le> 0xf
   \<and> implements (wrap rw) responseWriter
   \<and> implements (wrap rw) Flusher = is_Flusher rw
   \<and> implements (wrap rw) CloseNotifier = is_CloseNotifier rw
   \<and> implements (wrap rw) Hijacker = is_Hijacker rw
   \<and> implements (wrap rw) Pusher = is_Pusher rw"
  by (simp add: wrap_def wrap_switch_def wrap_mask_cases implements_def)

subsection \<open>The unmarshal handlers\<close>

















subsection \<open>The completion handler\<close>

text \<open>
  The v1 handler marks the throttle exactly when the SDK's \<open>request.IsErrorThrottle\<close>
  says so; what that predicate answers is decided outside this repository.
\<close>

lemma afterComplete_v1_throttle:
  "throttles (snd (afterComplete_v1 IsErrorThrottle r segs)) =
     (if IsErrorThrottle (Error r) then [SegCall (awsSeg segs) SetThrottle] else [])"
  by (auto simp: afterComplete_v1_def closeAll_def throttles_def Let_def split: prod.splits if_splits)

text \<open>
  C7. The v2 completion handler (which returns whenever \<open>attemptCancel\<close> is set as long
  as the attempt is open) calls \<open>SetThrottle\<close>, once and on the aws subsegment, exactly
  when \<open>errors.As\<close> finds a status code in the request's error and that code is 429;
  for any other status, and for no error or an error without a status, it makes no
  \<open>SetThrottle\<close> call. The v1 completion handler calls \<open>SetThrottle\<close>, once and on the aws
  subsegment, exactly when the SDK's \<open>request.IsErrorThrottle\<close> holds of the request's
  error; it does not look at the status code.
\<close>

theorem afterComplete_throttle:
  assumes "attemptCtx segs = None \<or> attemptCancel segs \<noteq> None"
  shows "(\<exists>segs' awsData' fx. afterComplete_v2 r awsData segs = Inr (segs', awsData', fx)
     \<and> awsSeg segs' = awsSeg segs
     \<and> throttles fx =
        (if errors_As_StatusCode (Error r) = Some 429 then [SegCall (awsSeg segs) SetThrottle] else []))
   \<and> throttles (snd (afterComplete_v1 IsErrorThrottle r segs)) =
        (if IsErrorThrottle (Error r) then [SegCall (awsSeg segs) SetThrottle] else [])"
proof -
  have "\<exists>segs' awsData' fx. afterComplete_v2 r awsData segs = Inr (segs', awsData', fx)
     \<and> awsSeg segs' = awsSeg segs
     \<and> throttles fx =
        (if errors_As_StatusCode (Error r) = Some 429 then [SegCall (awsSeg segs) SetThrottle] else [])"
    using assms
    by (auto simp: afterComplete_v2_def throttles_def StatusTooManyRequests_def Let_def
        split: option.splits prod.splits if_splits)
  then show ?thesis using afterComplete_v1_throttle[of IsErrorThrottle r segs] by simp
qed

theorem afterComplete_throttle_witness:
  "(attemptCtx segs_unmarshalling = None \<or> attemptCancel segs_unmarshalling \<noteq> None)
   \<and> (\<exists>segs' awsData' fx. afterComplete_v2 req_429 Map.empty segs_unmarshalling = Inr (segs', awsData', fx)
        \<and> throttles fx = [SegCall (Some 1) SetThrottle])
   \<and> (\<exists>segs' awsData' fx. afterComplete_v2 req_500 Map.empty segs_unmarshalling = Inr (segs', awsData', fx)
        \<and> throttles fx = [])
   \<and> throttles (snd (afterComplete_v1 (\<lambda>e. e \<noteq> [] \<and> message (hd e) = ''slow down'') req_429 segs_unmarshalling))
        = [SegCall (Some 1) SetThrottle]
   \<and> throttles (snd (afterComplete_v1 (\<lambda>e. e \<noteq> [] \<and> message (hd e) = ''slow down'') req_500 segs_unmarshalling))
        = []"
proof -
  have h: "attemptCtx segs_unmarshalling = None \<or> attemptCancel segs_unmarshalling \<noteq> None"
    by (simp add: segs_unmarshalling_def)
  have a: "errors_As_StatusCode (Error req_429) = Some 429"
    by (simp add: req_429_def)
  have b: "errors_As_StatusCode (Error req_500) = Some 500"
    by (simp add: req_500_def)
  have s: "awsSeg segs_unmarshalling = Some 1"
    by (simp add: segs_unmarshalling_def)
  have m: "Error req_429 \<noteq> [] \<and> message (hd (Error req_429)) = ''slow down''"
          "\<not> (Error req_500 \<noteq> [] \<and> message (hd (Error req_500)) = ''slow down'')"
    by (simp_all add: req_429_def req_500_def)
  from afterComplete_throttle [OF h, of req_429 Map.empty "\<lambda>e. e \<noteq> [] \<and> message (hd e) = ''slow down''"]
       afterComplete_throttle [OF h, of req_500 Map.empty "\<lambda>e. e \<noteq> [] \<and> message (hd e) = ''slow down''"]
  show ?thesis using h a b s m by auto
qed

text \<open>
  In the v1 handler the mark does not follow the status: an error with status 429 that
  \<open>request.IsErrorThrottle\<close> does not count as throttling is left unmarked, and an error
  with status 500 that it does count is marked.
\<close>

theorem afterComplete_v1_throttle_counterexample:
  "errors_As_StatusCode (Error req_429) = Some 429
   \<and> throttles (snd (afterComplete_v1 (\<lambda>e. False) req_429 segs_unmarshalling)) = []
   \<and> errors_As_StatusCode (Error req_500) = Some 500
   \<and> throttles (snd (afterComplete_v1 (\<lambda>e. True) req_500 segs_unmarshalling))
       = [SegCall (Some 1) SetThrottle]"
  by (simp add: req_429_def req_500_def segs_unmarshalling_def afterComplete_v1_def closeAll_def
      throttles_def Let_def)

subsection \<open>Descriptors\<close>

lemma two_entries:
  assumes "set es = {(k1, v1), (k2, v2)}" "distinct (map fst es)" "k1 \<noteq> k2"
  shows "length (map fst es) = 2 \<and> set (map fst es) = {k1, k2}"
proof -
  have d: "distinct es" using assms(2) by (simp add: distinct_map)
  have "card (set es) = 2" using assms(1,3) by simp
  then have "length es = 2" using d by (simp add: distinct_card)
  moreover have "set (map fst es) = {k1, k2}" using assms(1) by simp
  ultimately show ?thesis by simp
qed

text \<open>
  C8. For any descriptor with \<open>Map\<close> and \<open>GetKeys\<close> set and any value whose field \<open>key\<close>
  holds a map, \<open>insertDescriptor\<close> stores under the key (or under \<open>RenameTo\<close> when that
  is set) the list of the map's keys, in the order the runtime lists them. The field is
  found by its name: an exported field \<open>key\<close> of a struct, or of a struct behind a
  pointer, is read whatever fields come before it after the first, and a struct without
  such a field gives nil. So for the map \<open>{"foo":"bar","hoge":"fuga"}\<close>, in whatever
  order its keys are listed, the stored list has exactly two elements and its members
  are \<open>"foo"\<close> and \<open>"hoge"\<close>; the test's struct and descriptor are an instance. For any
  descriptor with \<open>Map\<close> set, if the field's value is not a map or \<open>GetKeys\<close> is false,
  the payload is left as it was.
\<close>

theorem insertDescriptor_map_keys:
  "(Map d \<and> GetKeys d \<and> getValue v key = Inr (VMap es)
    \<longrightarrow> insertDescriptor (Some d) aws v key
          = Inr (aws((if RenameTo d = [] then key else RenameTo d) \<mapsto> VSlice (map fst es))))
   \<and> (key \<notin> fst ` set pre
    \<longrightarrow> getValue (VStruct (first # pre @ (key, True, x) # post)) key = Inr x
      \<and> getValue (VPtr (Some (VStruct (first # pre @ (key, True, x) # post)))) key = Inr x)
   \<and> (key \<notin> fst ` set fs \<longrightarrow> getValue (VStruct (first # fs)) key = Inr VNil)
   \<and> (Map d \<and> GetKeys d \<and> RenameTo d = [] \<and> getValue v key = Inr (VMap entries)
      \<and> set entries = {(VString ''foo'', VString ''bar''), (VString ''hoge'', VString ''fuga'')}
      \<and> distinct (map fst entries)
    \<longrightarrow> (\<exists>ks. insertDescriptor (Some d) aws v key = Inr (aws(key \<mapsto> VSlice ks))
            \<and> length ks = 2 \<and> set ks = {VString ''foo'', VString ''hoge''}))
   \<and> getValue (struct_Map entries) ''Foo'' = Inr (VMap entries)
   \<and> Map desc_keys \<and> GetKeys desc_keys \<and> RenameTo desc_keys = []
   \<and> (Map d \<and> getValue v key = Inr val \<and> ((\<forall>es. val \<noteq> VMap es) \<or> \<not> GetKeys d)
    \<longrightarrow> insertDescriptor (Some d) aws v key = Inr aws)"
proof -
  have A: "insertDescriptor (Some d) aws v key
          = Inr (aws((if RenameTo d = [] then key else RenameTo d) \<mapsto> VSlice (map fst es)))"
    if "Map d \<and> GetKeys d \<and> getValue v key = Inr (VMap es)" for d v key es
    using that by (simp add: insertDescriptor_def AWS_Set_def Let_def)
  have F: "find_field (pre @ (key, True, x) # post) key = Inr x" if "key \<notin> fst ` set pre" for pre
    using that by (induction pre) auto
  have N: "find_field fs key = Inr VNil" if "key \<notin> fst ` set fs" for fs
    using that by (induction fs) auto
  have B: "getValue (VStruct (first # pre @ (key, True, x) # post)) key = Inr x
      \<and> getValue (VPtr (Some (VStruct (first # pre @ (key, True, x) # post)))) key = Inr x"
    if "key \<notin> fst ` set pre"
    using F[OF that] by (simp add: getValue_def)
  have C: "getValue (VStruct (first # fs)) key = Inr VNil" if "key \<notin> fst ` set fs"
    using N[OF that] by (simp add: getValue_def)
  have D: "\<exists>ks. insertDescriptor (Some d) aws v key = Inr (aws(key \<mapsto> VSlice ks))
            \<and> length ks = 2 \<and> set ks = {VString ''foo'', VString ''hoge''}"
    if h: "Map d \<and> GetKeys d \<and> RenameTo d = [] \<and> getValue v key = Inr (VMap entries)
      \<and> set entries = {(VString ''foo'', VString ''bar''), (VString ''hoge'', VString ''fuga'')}
      \<and> distinct (map fst entries)"
  proof -
    have i: "insertDescriptor (Some d) aws v key = Inr (aws(key \<mapsto> VSlice (map fst entries)))"
      using A[of d v key entries] h by simp
    from h have "length (map fst entries) = 2 \<and> set (map fst entries) = {VString ''foo'', VString ''hoge''}"
      by (intro two_entries[where ?v1.0="VString ''bar''" and ?v2.0="VString ''fuga''"]) simp_all
    with i show ?thesis by blast
  qed
  have E: "getValue (struct_Map entries) ''Foo'' = Inr (VMap entries)"
    by (simp add: getValue_def struct_Map_def)
  have G: "Map desc_keys \<and> GetKeys desc_keys \<and> RenameTo desc_keys = []"
    by (simp add: desc_keys_def)
  have H: "insertDescriptor (Some d) aws v key = Inr aws"
    if "Map d \<and> getValue v key = Inr val \<and> ((\<forall>es. val \<noteq> VMap es) \<or> \<not> GetKeys d)"
    using that by (auto simp: insertDescriptor_def Let_def split: gvalue.splits)
  show ?thesis
  proof (intro conjI impI)
    assume "Map d \<and> GetKeys d \<and> getValue v key = Inr (VMap es)"
    then show "insertDescriptor (Some d) aws v key
          = Inr (aws((if RenameTo d = [] then key else RenameTo d) \<mapsto> VSlice (map fst es)))"
      by (rule A)
  next
    assume a: "key \<notin> fst ` set pre"
    show "getValue (VStruct (first # pre @ (key, True, x) # post)) key = Inr x"
      using B[OF a] by simp
    show "getValue (VPtr (Some (VStruct (first # pre @ (key, True, x) # post)))) key = Inr x"
      using B[OF a] by simp
  next
    assume "key \<notin> fst ` set fs"
    then show "getValue (VStruct (first # fs)) key = Inr VNil" by (rule C)
  next
    assume "Map d \<and> GetKeys d \<and> RenameTo d = [] \<and> getValue v key = Inr (VMap entries)
      \<and> set entries = {(VString ''foo'', VString ''bar''), (VString ''hoge'', VString ''fuga'')}
      \<and> distinct (map fst entries)"
    then show "\<exists>ks. insertDescriptor (Some d) aws v key = Inr (aws(key \<mapsto> VSlice ks))
            \<and> length ks = 2 \<and> set ks = {VString ''foo'', VString ''hoge''}"
      by (rule D)
  next
    show "getValue (struct_Map entries) ''Foo'' = Inr (VMap entries)" by (rule E)
    show "Map desc_keys" "GetKeys desc_keys" "RenameTo desc_keys = []" using G by simp_all
  next
    assume "Map d \<and> getValue v key = Inr val \<and> ((\<forall>es. val \<noteq> VMap es) \<or> \<not> GetKeys d)"
    then show "insertDescriptor (Some d) aws v key = Inr aws" by (rule H)
  qed
qed

theorem insertDescriptor_map_keys_witness:
  "insertDescriptor (Some desc_keys) Map.empty (struct_Map entries_hoge_foo) ''Foo''
     = Inr [''Foo'' \<mapsto> VSlice [VString ''hoge'', VString ''foo'']]
   \<and> getValue (struct_Bar_Foo entries_hoge_foo) ''Foo'' = Inr (VMap entries_hoge_foo)
   \<and> getValue (struct_Bar_Foo entries_hoge_foo) ''Baz'' = Inr VNil
   \<and> insertDescriptor (Some (desc_keys\<lparr>RenameTo := ''keys''\<rparr>)) Map.empty
        (struct_Bar_Foo entries_hoge_foo) ''Foo''
     = Inr [''keys'' \<mapsto> VSlice [VString ''hoge'', VString ''foo'']]
   \<and> (\<exists>ks. insertDescriptor (Some desc_keys) Map.empty (struct_Bar_Foo entries_hoge_foo) ''Foo''
     = Inr [''Foo'' \<mapsto> VSlice ks] \<and> length ks = 2 \<and> set ks = {VString ''foo'', VString ''hoge''})
   \<and> insertDescriptor (Some desc_keys) Map.empty
      (VStruct [(''_'', False, VStruct []), (''Foo'', True, VString ''bar'')]) ''Foo'' = Inr Map.empty
   \<and> insertDescriptor (Some (desc_keys\<lparr>GetKeys := False\<rparr>)) Map.empty
      (struct_Map entries_hoge_foo) ''Foo'' = Inr Map.empty"
proof -
  let ?es = "entries_hoge_foo"
  let ?w = "VStruct [(''_'', False, VStruct []), (''Foo'', True, VString ''bar'')]"
  let ?dr = "desc_keys\<lparr>RenameTo := ''keys''\<rparr>"
  let ?dn = "desc_keys\<lparr>GetKeys := False\<rparr>"
  let ?bar = "(''Bar'', True, VString ''baz'') :: string \<times> bool \<times> gvalue"
  let ?blank = "(''_'', False, VStruct []) :: string \<times> bool \<times> gvalue"
  have s: "struct_Bar_Foo ?es = VStruct (?blank # [?bar] @ (''Foo'', True, VMap ?es) # [])"
    by (simp add: struct_Bar_Foo_def)
  have s2: "struct_Bar_Foo ?es = VStruct (?blank # [?bar, (''Foo'', True, VMap ?es)])"
    by (simp add: struct_Bar_Foo_def)
  have h1: "set ?es = {(VString ''foo'', VString ''bar''), (VString ''hoge'', VString ''fuga'')}"
           "distinct (map fst ?es)"
           "map fst ?es = [VString ''hoge'', VString ''foo'']"
    by (auto simp: entries_hoge_foo_def)
  have f1: "''Foo'' \<notin> fst ` set [?bar]" by simp
  have f2: "''Baz'' \<notin> fst ` set [?bar, (''Foo'', True, VMap ?es)]" by simp
  note t1 = insertDescriptor_map_keys
    [where d = desc_keys and v = "struct_Map ?es" and key = "''Foo''" and es = ?es
       and aws = Map.empty and pre = "[?bar]" and first = ?blank and x = "VMap ?es" and post = "[]"
       and fs = "[]" and entries = ?es and val = VNil]
  have k: "Map desc_keys" "GetKeys desc_keys" "RenameTo desc_keys = []"
    using t1 by simp_all
  have g1: "getValue (struct_Map ?es) ''Foo'' = Inr (VMap ?es)" using t1 by simp
  have c1: "insertDescriptor (Some desc_keys) Map.empty (struct_Map ?es) ''Foo''
     = Inr [''Foo'' \<mapsto> VSlice [VString ''hoge'', VString ''foo'']]"
    using t1 k g1 h1(3) by simp
  have b1: "getValue (struct_Bar_Foo ?es) ''Foo'' = Inr (VMap ?es)"
    using t1 f1 unfolding s by simp
  note t2 = insertDescriptor_map_keys
    [where d = ?dr and v = "struct_Bar_Foo ?es" and key = "''Baz''" and es = ?es
       and aws = Map.empty and pre = "[]" and first = ?blank and x = VNil and post = "[]"
       and fs = "[?bar, (''Foo'', True, VMap ?es)]" and entries = ?es and val = VNil]
  have b2: "getValue (struct_Bar_Foo ?es) ''Baz'' = Inr VNil"
    using t2 f2 unfolding s2 by simp
  note t3 = insertDescriptor_map_keys
    [where d = ?dr and v = "struct_Bar_Foo ?es" and key = "''Foo''" and es = ?es
       and aws = Map.empty and pre = "[]" and first = ?blank and x = VNil and post = "[]"
       and fs = "[]" and entries = ?es and val = VNil]
  have kr: "Map ?dr" "GetKeys ?dr" "RenameTo ?dr = ''keys''" using k by simp_all
  have c2: "insertDescriptor (Some ?dr) Map.empty (struct_Bar_Foo ?es) ''Foo''
     = Inr [''keys'' \<mapsto> VSlice [VString ''hoge'', VString ''foo'']]"
    using t3 kr b1 h1(3) by simp
  note t4 = insertDescriptor_map_keys
    [where d = desc_keys and v = "struct_Bar_Foo ?es" and key = "''Foo''" and es = ?es
       and aws = Map.empty and pre = "[]" and first = ?blank and x = VNil and post = "[]"
       and fs = "[]" and entries = ?es and val = VNil]
  have c3: "\<exists>ks. insertDescriptor (Some desc_keys) Map.empty (struct_Bar_Foo ?es) ''Foo''
     = Inr [''Foo'' \<mapsto> VSlice ks] \<and> length ks = 2 \<and> set ks = {VString ''foo'', VString ''hoge''}"
    using t4 k b1 h1(1,2) by blast
  have gw: "getValue ?w ''Foo'' = Inr (VString ''bar'')"
    using insertDescriptor_map_keys
      [where d = desc_keys and v = ?w and key = "''Foo''" and es = ?es
       and aws = Map.empty and pre = "[]" and first = ?blank and x = "VString ''bar''" and post = "[]"
       and fs = "[]" and entries = ?es and val = "VString ''bar''"]
    by simp
  have c4: "insertDescriptor (Some desc_keys) Map.empty ?w ''Foo'' = Inr Map.empty"
    using insertDescriptor_map_keys
      [where d = desc_keys and v = ?w and key = "''Foo''" and es = ?es
       and aws = Map.empty and pre = "[]" and first = ?blank and x = "VString ''bar''" and post = "[]"
       and fs = "[]" and entries = ?es and val = "VString ''bar''"] k gw
    by simp
  have kn: "Map ?dn" "\<not> GetKeys ?dn" using k by simp_all
  have c5: "insertDescriptor (Some ?dn) Map.empty (struct_Map ?es) ''Foo'' = Inr Map.empty"
    using insertDescriptor_map_keys
      [where d = ?dn and v = "struct_Map ?es" and key = "''Foo''" and es = ?es
       and aws = Map.empty and pre = "[]" and first = ?blank and x = VNil and post = "[]"
       and fs = "[]" and entries = ?es and val = "VMap ?es"] kn g1
    by simp
  show ?thesis using c1 b1 b2 c2 c3 c4 c5 by simp
qed

section \<open>Properties of the centralized strategy\<close>

subsection \<open>ShouldTrace\<close>

text \<open>
  C1. \<open>ShouldTrace\<close> does not look at the age of the manifest: its answer is the same
  whatever \<open>RefreshedAt\<close> is, and with a manifest whose first rule matches, it hands the
  decision to that rule and not to the fallback strategy, however long ago the manifest
  was refreshed. For the manifest refreshed at time 1 (one nanosecond after the zero
  time) and a rule that matches every request, the rule \<open>Test\<close> decides.
\<close>

theorem ShouldTrace_ignores_manifest_age:
  "ShouldTrace Match req (s\<lparr>manifest := Some (m\<lparr>RefreshedAt := t\<rparr>)\<rparr>)
     = ShouldTrace Match req (s\<lparr>manifest := Some m\<rparr>)
   \<and> ShouldTrace (\<lambda>r q. True) req
        (s\<lparr>manifest := Some \<lparr>Rules = r # rs, Quotas = qs, RefreshedAt = t\<rparr>\<rparr>) = RuleSample r
   \<and> RefreshedAt manifest_Test = 1
   \<and> ShouldTrace always_Match () (strategy_new\<lparr>manifest := Some manifest_Test\<rparr>)
       = RuleSample \<lparr>quotaP = 0, ruleName = ''Test'', priority = 0, host = ''example.com'',
                urlPath = [], httpMethod = ''GET'', serviceName = ''FooBar'',
                serviceType = ''AWS::EC2::Instance''\<rparr>"
  by (simp add: ShouldTrace_def manifest_Test_def always_Match_def)

subsection \<open>refreshRule\<close>

lemma new_quota_store:
  "new_quota h q = (a, h1) \<Longrightarrow>
     a = next_addr h \<and> next_addr h1 = Suc (next_addr h) \<and> cells h1 a = q
     \<and> (\<forall>b. b \<noteq> a \<longrightarrow> cells h1 b = cells h b)"
  by (auto simp: new_quota_def)

lemma refresh_records_store:
  "refresh_records m recs (rules, quotas, h) = (p, (rules', quotas', h')) \<Longrightarrow>
     next_addr h \<le> next_addr h' \<and> (\<forall>a < next_addr h. cells h' a = cells h a)"
proof (induction recs arbitrary: rules quotas h)
  case Nil
  then show ?case by simp
next
  case (Cons x xs)
  show ?case
  proof (cases x)
    case None
    with Cons.prems show ?thesis by simp
  next
    case (Some rcd)
    show ?thesis
    proof (cases "SamplingRule rcd")
      case None
      with Some Cons.prems show ?thesis by simp
    next
      case (Some r)
      let ?name = "StringValue (RuleName r)"
      obtain q h1 where qh: "(case Quotas m ?name of Some q \<Rightarrow> (q, h)
            | None \<Rightarrow> new_quota h (zero_quota\<lparr>fixedRate := Float64Value (FixedRate r)\<rparr>)) = (q, h1)"
        by (cases "(case Quotas m ?name of Some q \<Rightarrow> (q, h)
            | None \<Rightarrow> new_quota h (zero_quota\<lparr>fixedRate := Float64Value (FixedRate r)\<rparr>))")
      have step: "next_addr h \<le> next_addr h1 \<and> (\<forall>a < next_addr h. cells h1 a = cells h a)"
        using qh by (auto simp: new_quota_def split: option.splits)
      from Cons.prems \<open>x = Some rcd\<close> Some qh
      obtain rl qs where "refresh_records m xs (rl, qs, h1) = (p, (rules', quotas', h'))"
        by (simp add: Let_def)
      from Cons.IH[OF this] step show ?thesis by auto
    qed
  qed
qed

lemma refresh_pages_store:
  "refresh_pages m pages (rules, quotas, h) = (p, (rules', quotas', h')) \<Longrightarrow>
     next_addr h \<le> next_addr h' \<and> (\<forall>a < next_addr h. cells h' a = cells h a)"
proof (induction pages arbitrary: rules quotas h)
  case Nil
  then show ?case by simp
next
  case (Cons page pages)
  obtain p1 r1 q1 h1 where r: "refresh_records m page (rules, quotas, h) = (p1, (r1, q1, h1))"
    by (metis prod_cases4)
  note s1 = refresh_records_store[OF r]
  show ?case
  proof (cases p1)
    case None
    with Cons.prems r have "refresh_pages m pages (r1, q1, h1) = (p, (rules', quotas', h'))" by simp
    from Cons.IH[OF this] s1 show ?thesis by auto
  next
    case (Some x)
    with Cons.prems r s1 show ?thesis by auto
  qed
qed

text \<open>
  C3. When the API call of \<open>refreshRule\<close> returns an error, whatever pages the callback
  was given before, the strategy's manifest is the one it had, \<open>refreshRule\<close> has not
  completed, the client id is unchanged and every quota that existed keeps its
  contents.
\<close>

theorem refreshRule_error_keeps_manifest:
  "manifest (fst (refreshRule pages (e # es) now s)) = manifest s
   \<and> snd (refreshRule pages (e # es) now s) \<noteq> Completed
   \<and> clientID (fst (refreshRule pages (e # es) now s)) = clientID s
   \<and> (\<forall>a < next_addr (heap s). cells (heap (fst (refreshRule pages (e # es) now s))) a = cells (heap s) a)"
proof (cases "manifest s")
  case None
  then show ?thesis by (simp add: refreshRule_def)
next
  case (Some m)
  obtain p rules quotas h where r: "refresh_pages m pages ([], Map.empty, heap s) = (p, (rules, quotas, h))"
    by (metis prod_cases4)
  from refresh_pages_store[OF r] Some r show ?thesis
    by (cases p) (simp_all add: refreshRule_def)
qed

lemma strategy_Test_run:
  "refreshRule [[Some \<lparr>SamplingRule = Some rule_Test\<rparr>]] [] 1 strategy_new = (strategy_Test, Completed)"
  by (simp add: strategy_Test_def refreshRule_def strategy_new_def rule_Test_def new_quota_def
      Let_def StringValue_def)

lemma strategy_Test_manifest:
  "manifest strategy_Test = Some manifest_Test \<and> next_addr (heap strategy_Test) = 1
   \<and> cells (heap strategy_Test) 0 = zero_quota\<lparr>fixedRate := 1 / 2\<rparr>"
  by (simp add: strategy_Test_def refreshRule_def strategy_new_def rule_Test_def new_quota_def
      Let_def StringValue_def Int64Value_def Float64Value_def manifest_Test_def rule_key_def)

theorem refreshRule_error_keeps_manifest_witness:
  "manifest (fst (refreshRule [[Some \<lparr>SamplingRule = Some rule_Test_wild\<rparr>], [None]] err_timeout 2 strategy_Test))
     = Some manifest_Test
   \<and> manifest (fst (refreshRule [[Some \<lparr>SamplingRule = Some rule_Test_wild\<rparr>]] err_timeout 2 strategy_Test))
     = Some manifest_Test
   \<and> snd (refreshRule [[Some \<lparr>SamplingRule = Some rule_Test_wild\<rparr>]] err_timeout 2 strategy_Test) = Failed
   \<and> (0::nat) < next_addr (heap strategy_Test)
   \<and> cells (heap (fst (refreshRule [[Some \<lparr>SamplingRule = Some rule_Test_wild\<rparr>]] err_timeout 2 strategy_Test))) 0
     = zero_quota\<lparr>fixedRate := 1 / 2\<rparr>"
proof -
  let ?p = "[[Some \<lparr>SamplingRule = Some rule_Test_wild\<rparr>]]"
  let ?e = "\<lparr>message = ''RequestError: send request failed'', status_code = None\<rparr>"
  note m1 = strategy_Test_manifest
  have f: "snd (refreshRule ?p err_timeout 2 strategy_Test) = Failed"
    using m1 by (simp add: refreshRule_def manifest_Test_def rule_Test_wild_def StringValue_def
        Let_def err_timeout_def)
  from refreshRule_error_keeps_manifest [of ?p ?e "[]" 2 strategy_Test]
       refreshRule_error_keeps_manifest [of "?p @ [[None]]" ?e "[]" 2 strategy_Test]
  show ?thesis using m1 f by (simp add: err_timeout_def)
qed

lemma built_from_weaken:
  "built_from m h1 h' x r \<Longrightarrow> next_addr h \<le> next_addr h1 \<Longrightarrow> built_from m h h' x r"
  by (auto simp: built_from_def split: option.splits)

lemma refresh_records_built:
  assumes "refresh_records m xs (rules, quotas, h) = (None, (rules', quotas', h'))"
  shows "\<exists>new. rules' = rules @ new \<and> list_all2 (built_from m h h') xs new
     \<and> (\<forall>n. if (\<exists>r\<in>set new. ruleName r = n)
             then (\<exists>r\<in>set new. ruleName r = n \<and> quotas' n = Some (quotaP r))
             else quotas' n = quotas n)"
  using assms
proof (induction xs arbitrary: rules quotas h)
  case Nil
  then show ?case by simp
next
  case (Cons x xs)
  from Cons.prems obtain rcd where x: "x = Some rcd" by (cases x) auto
  from Cons.prems x obtain sr where sr: "SamplingRule rcd = Some sr" by (cases "SamplingRule rcd") auto
  let ?name = "StringValue (RuleName sr)"
  obtain q h1 where qh: "(case Quotas m ?name of Some q \<Rightarrow> (q, h)
        | None \<Rightarrow> new_quota h (zero_quota\<lparr>fixedRate := Float64Value (FixedRate sr)\<rparr>)) = (q, h1)"
    by (cases "(case Quotas m ?name of Some q \<Rightarrow> (q, h)
        | None \<Rightarrow> new_quota h (zero_quota\<lparr>fixedRate := Float64Value (FixedRate sr)\<rparr>))")
  define rule where "rule = \<lparr>quotaP = q, ruleName = ?name, priority = Int64Value (Priority sr),
      host = StringValue (Host sr), urlPath = StringValue (URLPath sr),
      httpMethod = StringValue (HTTPMethod sr), serviceName = StringValue (ServiceName sr),
      serviceType = StringValue (ServiceType sr)\<rparr>"
  have rest: "refresh_records m xs (rules @ [rule], quotas(?name \<mapsto> q), h1) = (None, (rules', quotas', h'))"
    using Cons.prems x sr qh by (simp add: Let_def rule_def)
  from Cons.IH[OF rest] obtain new2 where
    n1: "rules' = (rules @ [rule]) @ new2" and
    n2: "list_all2 (built_from m h1 h') xs new2" and
    n3: "\<forall>n. if (\<exists>r\<in>set new2. ruleName r = n)
             then (\<exists>r\<in>set new2. ruleName r = n \<and> quotas' n = Some (quotaP r))
             else quotas' n = (quotas(?name \<mapsto> q)) n"
    by blast
  note st = refresh_records_store[OF rest]
  have mono: "next_addr h \<le> next_addr h1"
    using qh by (auto simp: new_quota_def split: option.splits)
  have b: "built_from m h h' x rule"
  proof (cases "Quotas m ?name")
    case None
    with qh have a: "q = next_addr h" "next_addr h1 = Suc (next_addr h)"
      "cells h1 q = zero_quota\<lparr>fixedRate := Float64Value (FixedRate sr)\<rparr>"
      by (auto simp: new_quota_def)
    then have "cells h' q = zero_quota\<lparr>fixedRate := Float64Value (FixedRate sr)\<rparr>"
      using st by simp
    with a st None show ?thesis by (simp add: built_from_def x sr rule_def)
  next
    case (Some a)
    with qh show ?thesis by (simp add: built_from_def x sr rule_def)
  qed
  have l: "list_all2 (built_from m h h') (x # xs) (rule # new2)"
    using b n2 mono by (auto intro: list_all2_mono built_from_weaken)
  have e: "\<forall>n. if (\<exists>r\<in>set (rule # new2). ruleName r = n)
             then (\<exists>r\<in>set (rule # new2). ruleName r = n \<and> quotas' n = Some (quotaP r))
             else quotas' n = quotas n"
  proof
    fix n
    show "if (\<exists>r\<in>set (rule # new2). ruleName r = n)
             then (\<exists>r\<in>set (rule # new2). ruleName r = n \<and> quotas' n = Some (quotaP r))
             else quotas' n = quotas n"
    proof (cases "\<exists>r\<in>set new2. ruleName r = n")
      case True
      with n3 show ?thesis by auto
    next
      case False
      with n3 have q': "quotas' n = (quotas(?name \<mapsto> q)) n" by metis
      show ?thesis
      proof (cases "n = ?name")
        case True
        with q' show ?thesis by (simp add: rule_def)
      next
        case False
        with q' \<open>\<not> (\<exists>r\<in>set new2. ruleName r = n)\<close> show ?thesis by (simp add: rule_def)
      qed
    qed
  qed
  from n1 l e show ?case by (intro exI[of _ "rule # new2"]) simp
qed

lemma refresh_records_append:
  "refresh_records m (xs @ ys) acc =
     (case refresh_records m xs acc of
        (Some p, acc1) \<Rightarrow> (Some p, acc1)
      | (None, acc1) \<Rightarrow> refresh_records m ys acc1)"
proof (induction xs arbitrary: acc)
  case Nil
  then show ?case by simp
next
  case (Cons x xs)
  obtain rules quotas h where acc: "acc = (rules, quotas, h)" by (cases acc)
  show ?case
    by (simp add: acc Cons.IH Let_def split: option.splits prod.splits)
qed

lemma refresh_pages_concat:
  "refresh_pages m pages acc = (None, acc') \<Longrightarrow> refresh_records m (concat pages) acc = (None, acc')"
proof (induction pages arbitrary: acc)
  case Nil
  then show ?case by simp
next
  case (Cons page pages)
  obtain p1 acc1 where r: "refresh_records m page acc = (p1, acc1)" by (cases "refresh_records m page acc")
  with Cons.prems have p1: "p1 = None" by (cases p1) auto
  with Cons.prems r have "refresh_pages m pages acc1 = (None, acc')" by simp
  from Cons.IH[OF this] r p1 show ?case by (simp add: refresh_records_append)
qed

lemma list_all2_left: "list_all2 P xs ys \<Longrightarrow> x \<in> set xs \<Longrightarrow> \<exists>y\<in>set ys. P x y"
  by (metis in_set_conv_nth list_all2_conv_all_nth)

lemma list_all2_right: "list_all2 P xs ys \<Longrightarrow> y \<in> set ys \<Longrightarrow> \<exists>x\<in>set xs. P x y"
  by (metis in_set_conv_nth list_all2_conv_all_nth)

lemma refreshRule_Completed:
  assumes "refreshRule pages err now s = (s', Completed)" "manifest s = Some m"
  shows "\<exists>new quotas'. refresh_records m (concat pages) ([], Map.empty, heap s) = (None, (new, quotas', heap s'))
     \<and> manifest s' = Some \<lparr>Rules = sort_key rule_key new, Quotas = quotas', RefreshedAt = now\<rparr>
     \<and> err = []"
proof -
  obtain p rules quotas h where r: "refresh_pages m pages ([], Map.empty, heap s) = (p, (rules, quotas, h))"
    by (metis prod_cases4)
  with assms have p: "p = None" by (cases p) (auto simp: refreshRule_def split: if_splits)
  with assms r have e: "err = []" by (auto simp: refreshRule_def split: if_splits)
  with assms r p have s': "s' = s\<lparr>heap := h, manifest := Some \<lparr>Rules = sort_key rule_key rules,
        Quotas = quotas, RefreshedAt = now\<rparr>\<rparr>"
    by (auto simp: refreshRule_def)
  from refresh_pages_concat[OF r[unfolded p]] s' e show ?thesis by simp
qed

text \<open>
  C2. After a run of \<open>refreshRule\<close> that completes, for every record returned: the new
  manifest has a rule of the record's name, and its \<open>Quotas\<close> entry for that name is the
  quota of such a rule. If the previous manifest's \<open>Quotas\<close> had the name, the new entry
  and every new rule of that name point to that same quota, whose contents are
  unchanged. Otherwise a quota was allocated for the record, holding the record's
  \<open>FixedRate\<close> and zero everywhere else, and every rule of that name points to a newly
  allocated quota whose \<open>quota\<close> is zero and whose \<open>fixedRate\<close> is the \<open>FixedRate\<close> of a
  record of that name.
\<close>

theorem refreshRule_reuses_or_borrows:
  assumes "refreshRule pages err now s = (s', Completed)"
      and "manifest s = Some m"
      and "Some rcd \<in> set (concat pages)"
      and "SamplingRule rcd = Some sr"
  shows "\<exists>m'. manifest s' = Some m'
     \<and> (\<exists>r\<in>set (Rules m'). ruleName r = StringValue (RuleName sr)
           \<and> Quotas m' (StringValue (RuleName sr)) = Some (quotaP r))
     \<and> (case Quotas m (StringValue (RuleName sr)) of
          Some a \<Rightarrow>
            Quotas m' (StringValue (RuleName sr)) = Some a
            \<and> (\<forall>r\<in>set (Rules m'). ruleName r = StringValue (RuleName sr) \<longrightarrow> quotaP r = a)
            \<and> (a < next_addr (heap s) \<longrightarrow> cells (heap s') a = cells (heap s) a)
        | None \<Rightarrow>
            (\<exists>r\<in>set (Rules m'). ruleName r = StringValue (RuleName sr)
                \<and> next_addr (heap s) \<le> quotaP r
                \<and> cells (heap s') (quotaP r) = zero_quota\<lparr>fixedRate := Float64Value (FixedRate sr)\<rparr>)
            \<and> (\<forall>r\<in>set (Rules m'). ruleName r = StringValue (RuleName sr) \<longrightarrow>
                  next_addr (heap s) \<le> quotaP r \<and> quota (cells (heap s') (quotaP r)) = 0
                  \<and> (\<exists>rcd' sr'. Some rcd' \<in> set (concat pages) \<and> SamplingRule rcd' = Some sr'
                        \<and> StringValue (RuleName sr') = StringValue (RuleName sr)
                        \<and> fixedRate (cells (heap s') (quotaP r)) = Float64Value (FixedRate sr'))))"
proof -
  let ?name = "StringValue (RuleName sr)"
  from refreshRule_Completed[OF assms(1,2)] obtain new quotas' where
    rr: "refresh_records m (concat pages) ([], Map.empty, heap s) = (None, (new, quotas', heap s'))" and
    m': "manifest s' = Some \<lparr>Rules = sort_key rule_key new, Quotas = quotas', RefreshedAt = now\<rparr>"
    by blast
  let ?m' = "\<lparr>Rules = sort_key rule_key new, Quotas = quotas', RefreshedAt = now\<rparr>"
  from refresh_records_built[OF rr] have
    all2: "list_all2 (built_from m (heap s) (heap s')) (concat pages) new" and
    ent: "\<forall>n. if (\<exists>r\<in>set new. ruleName r = n)
             then (\<exists>r\<in>set new. ruleName r = n \<and> quotas' n = Some (quotaP r))
             else quotas' n = Map.empty n"
    by auto
  note st = refresh_records_store[OF rr]
  have rules: "set (Rules ?m') = set new" by simp
  from list_all2_left[OF all2 assms(3)] obtain r0 where
    r0: "r0 \<in> set new" "built_from m (heap s) (heap s') (Some rcd) r0" by blast
  then have r0n: "ruleName r0 = ?name" using assms(4) by (simp add: built_from_def)
  from ent r0(1) r0n obtain r1 where
    r1: "r1 \<in> set new" "ruleName r1 = ?name" "quotas' ?name = Some (quotaP r1)" by metis
  have c1: "\<exists>r\<in>set (Rules ?m'). ruleName r = ?name \<and> Quotas ?m' ?name = Some (quotaP r)"
    using r1 by auto
  have every: "\<And>r. r \<in> set new \<Longrightarrow> ruleName r = ?name \<Longrightarrow>
      \<exists>rcd' sr'. Some rcd' \<in> set (concat pages) \<and> SamplingRule rcd' = Some sr'
        \<and> StringValue (RuleName sr') = ?name
        \<and> (case Quotas m ?name of Some a \<Rightarrow> quotaP r = a
            | None \<Rightarrow> next_addr (heap s) \<le> quotaP r \<and>
                cells (heap s') (quotaP r) = zero_quota\<lparr>fixedRate := Float64Value (FixedRate sr')\<rparr>)"
  proof -
    fix r assume r: "r \<in> set new" "ruleName r = ?name"
    from list_all2_right[OF all2 r(1)] obtain x where
      x: "x \<in> set (concat pages)" "built_from m (heap s) (heap s') x r" by blast
    then obtain rcd' sr' where "x = Some rcd'" "SamplingRule rcd' = Some sr'"
      by (auto simp: built_from_def split: option.splits)
    with x r show "\<exists>rcd' sr'. Some rcd' \<in> set (concat pages) \<and> SamplingRule rcd' = Some sr'
        \<and> StringValue (RuleName sr') = ?name
        \<and> (case Quotas m ?name of Some a \<Rightarrow> quotaP r = a
            | None \<Rightarrow> next_addr (heap s) \<le> quotaP r \<and>
                cells (heap s') (quotaP r) = zero_quota\<lparr>fixedRate := Float64Value (FixedRate sr')\<rparr>)"
      by (auto simp: built_from_def split: option.splits)
  qed
  have c2: "(case Quotas m ?name of
          Some a \<Rightarrow>
            Quotas ?m' ?name = Some a
            \<and> (\<forall>r\<in>set (Rules ?m'). ruleName r = ?name \<longrightarrow> quotaP r = a)
            \<and> (a < next_addr (heap s) \<longrightarrow> cells (heap s') a = cells (heap s) a)
        | None \<Rightarrow>
            (\<exists>r\<in>set (Rules ?m'). ruleName r = ?name
                \<and> next_addr (heap s) \<le> quotaP r
                \<and> cells (heap s') (quotaP r) = zero_quota\<lparr>fixedRate := Float64Value (FixedRate sr)\<rparr>)
            \<and> (\<forall>r\<in>set (Rules ?m'). ruleName r = ?name \<longrightarrow>
                  next_addr (heap s) \<le> quotaP r \<and> quota (cells (heap s') (quotaP r)) = 0
                  \<and> (\<exists>rcd' sr'. Some rcd' \<in> set (concat pages) \<and> SamplingRule rcd' = Some sr'
                        \<and> StringValue (RuleName sr') = ?name
                        \<and> fixedRate (cells (heap s') (quotaP r)) = Float64Value (FixedRate sr'))))"
  proof (cases "Quotas m ?name")
    case (Some a)
    have "\<forall>r\<in>set new. ruleName r = ?name \<longrightarrow> quotaP r = a"
      using every Some by fastforce
    moreover from this r1 have "quotas' ?name = Some a" by simp
    ultimately show ?thesis using Some st by simp
  next
    case None
    have a: "next_addr (heap s) \<le> quotaP r0
        \<and> cells (heap s') (quotaP r0) = zero_quota\<lparr>fixedRate := Float64Value (FixedRate sr)\<rparr>"
      using r0 r0n None assms(4) by (auto simp: built_from_def)
    have b: "\<forall>r\<in>set new. ruleName r = ?name \<longrightarrow>
                  next_addr (heap s) \<le> quotaP r \<and> quota (cells (heap s') (quotaP r)) = 0
                  \<and> (\<exists>rcd' sr'. Some rcd' \<in> set (concat pages) \<and> SamplingRule rcd' = Some sr'
                        \<and> StringValue (RuleName sr') = ?name
                        \<and> fixedRate (cells (heap s') (quotaP r)) = Float64Value (FixedRate sr'))"
    proof (intro ballI impI)
      fix r assume "r \<in> set new" "ruleName r = ?name"
      from every[OF this] None obtain rcd' sr' where
        "Some rcd' \<in> set (concat pages)" "SamplingRule rcd' = Some sr'"
        "StringValue (RuleName sr') = ?name" "next_addr (heap s) \<le> quotaP r"
        "cells (heap s') (quotaP r) = zero_quota\<lparr>fixedRate := Float64Value (FixedRate sr')\<rparr>"
        by auto
      then show "next_addr (heap s) \<le> quotaP r \<and> quota (cells (heap s') (quotaP r)) = 0
                  \<and> (\<exists>rcd' sr'. Some rcd' \<in> set (concat pages) \<and> SamplingRule rcd' = Some sr'
                        \<and> StringValue (RuleName sr') = ?name
                        \<and> fixedRate (cells (heap s') (quotaP r)) = Float64Value (FixedRate sr'))"
        by (auto simp: zero_quota_def)
    qed
    from a b r0 r0n None show ?thesis by auto
  qed
  from m' c1 c2 show ?thesis by blast
qed

theorem refreshRule_reuses_or_borrows_witness:
  "refreshRule [[Some \<lparr>SamplingRule = Some rule_Test\<rparr>]] [] 1 strategy_new = (strategy_Test, Completed)
   \<and> manifest strategy_new = Some \<lparr>Rules = [], Quotas = Map.empty, RefreshedAt = 0\<rparr>
   \<and> Some \<lparr>SamplingRule = Some rule_Test\<rparr> \<in> set (concat [[Some \<lparr>SamplingRule = Some rule_Test\<rparr>]])
   \<and> (\<exists>r\<in>set (Rules manifest_Test). ruleName r = ''Test''
         \<and> cells (heap strategy_Test) (quotaP r) = zero_quota\<lparr>fixedRate := 1 / 2\<rparr>)
   \<and> snd (refreshRule [[Some \<lparr>SamplingRule = Some rule_Test_wild\<rparr>]] [] 2 strategy_Test) = Completed
   \<and> (\<exists>m'. manifest (fst (refreshRule [[Some \<lparr>SamplingRule = Some rule_Test_wild\<rparr>]] [] 2 strategy_Test)) = Some m'
         \<and> Quotas m' ''Test'' = Some 0
         \<and> list_all (\<lambda>r. quotaP r = 0) (Rules m'))
   \<and> cells (heap (fst (refreshRule [[Some \<lparr>SamplingRule = Some rule_Test_wild\<rparr>]] [] 2 strategy_Test))) 0
       = zero_quota\<lparr>fixedRate := 1 / 2\<rparr>"
proof -
  let ?p1 = "[[Some \<lparr>SamplingRule = Some rule_Test\<rparr>]]"
  let ?p2 = "[[Some \<lparr>SamplingRule = Some rule_Test_wild\<rparr>]]"
  let ?s2 = "fst (refreshRule ?p2 [] 2 strategy_Test)"
  have n1: "StringValue (RuleName rule_Test) = ''Test''" "Float64Value (FixedRate rule_Test) = 1 / 2"
    by (simp_all add: rule_Test_def StringValue_def Float64Value_def)
  have n2: "StringValue (RuleName rule_Test_wild) = ''Test''"
    by (simp add: rule_Test_wild_def StringValue_def)
  have m0: "manifest strategy_new = Some \<lparr>Rules = [], Quotas = Map.empty, RefreshedAt = 0\<rparr>"
           "next_addr (heap strategy_new) = 0"
    by (simp_all add: strategy_new_def)
  have i1: "Some \<lparr>SamplingRule = Some rule_Test\<rparr> \<in> set (concat ?p1)" by simp
  have i2: "Some \<lparr>SamplingRule = Some rule_Test_wild\<rparr> \<in> set (concat ?p2)" by simp
  note m1 = strategy_Test_manifest
  have q1: "Quotas manifest_Test ''Test'' = Some 0" by (simp add: manifest_Test_def)
  have c2: "snd (refreshRule ?p2 [] 2 strategy_Test) = Completed"
    using m1 by (simp add: refreshRule_def manifest_Test_def rule_Test_wild_def StringValue_def Let_def)
  then have r2: "refreshRule ?p2 [] 2 strategy_Test = (?s2, Completed)"
    by (simp add: prod_eq_iff)
  have a: "\<exists>r\<in>set (Rules manifest_Test). ruleName r = ''Test''
         \<and> cells (heap strategy_Test) (quotaP r) = zero_quota\<lparr>fixedRate := 1 / 2\<rparr>"
    using refreshRule_reuses_or_borrows
      [OF strategy_Test_run m0(1) i1, of rule_Test] m1 n1 m0(2)
    by auto
  have b: "\<exists>m'. manifest ?s2 = Some m' \<and> Quotas m' ''Test'' = Some 0
         \<and> list_all (\<lambda>r. quotaP r = 0) (Rules m')
         \<and> cells (heap ?s2) 0 = zero_quota\<lparr>fixedRate := 1 / 2\<rparr>"
  proof -
    from refreshRule_reuses_or_borrows [OF r2 conjunct1[OF m1] i2, of rule_Test_wild]
    obtain m' where m': "manifest ?s2 = Some m'" "Quotas m' ''Test'' = Some 0"
       "\<forall>r\<in>set (Rules m'). ruleName r = ''Test'' \<longrightarrow> quotaP r = 0"
       "cells (heap ?s2) 0 = cells (heap strategy_Test) 0"
      using n2 q1 m1 by auto
    have "Rules m' = [\<lparr>quotaP = 0, ruleName = ''Test'', priority = 0, host = ''*'',
                urlPath = [], httpMethod = ''*'', serviceName = ''*'', serviceType = ''*''\<rparr>]"
      using m'(1) m1
      by (auto simp add: refreshRule_def manifest_Test_def rule_Test_wild_def StringValue_def
          Int64Value_def Let_def rule_key_def)
    then show ?thesis using m' m1 by auto
  qed
  show ?thesis using strategy_Test_run m0(1) i1 a b c2 by auto
qed

subsection \<open>newXRaySvc\<close>

text \<open>
  C9. The configuration \<open>newXRaySvc\<close> gives to \<open>session.NewSession\<close> carries the static
  credentials with empty access key, secret and token. If the session cannot be made
  the error is returned; otherwise the client returned has exactly one \<open>Sign\<close> handler,
  the one that does nothing, whatever handlers \<open>xray.New\<close> had installed, and running the
  \<open>Sign\<close> list leaves every request as it was. With an SDK whose client signs, the
  request \<open>GetSamplingRules\<close> is signed by the client as built and left alone by the
  client \<open>newXRaySvc\<close> returns.
\<close>

theorem newXRaySvc_unsigned:
  "Credentials (session_config addr) = Some (NewStaticCredentials [] [] [])
   \<and> (case NewSession (session_config addr) of
         Inl e \<Rightarrow> newXRaySvc NewSession New addr = Inl e
       | Inr sess \<Rightarrow>
           (\<exists>x. newXRaySvc NewSession New addr = Inr x
              \<and> Handlers_Sign x = [\<lambda>r. r]
              \<and> (\<forall>r. HandlerList_Run (Handlers_Sign x) r = r)))
   \<and> (\<exists>x. newXRaySvc NewSession_ok New_signing ''127.0.0.1:2000'' = Inr x
         \<and> HandlerList_Run (Handlers_Sign (New_signing (session_config ''127.0.0.1:2000''))) ''GetSamplingRules''
            = ''GetSamplingRules signed''
         \<and> HandlerList_Run (Handlers_Sign x) ''GetSamplingRules'' = ''GetSamplingRules'')"
  by (auto simp: session_config_def newXRaySvc_def HandlerList_Clear_def HandlerList_PushBack_def
      Let_def NewSession_ok_def New_signing_def split: sum.splits)

end
